theory Spec2Isabelle
  imports Complex_Main "HOL-Library.Char_ord" "HOL-Library.List_Lexorder"
begin

section \<open>Python values read from and written to the JSON files\<close>

text \<open>
  The launcher keeps two JSON documents (\<^verbatim>\<open>launcher.json\<close> and \<^verbatim>\<open>last_played.json\<close>) and
  hands whatever \<^verbatim>\<open>json.load\<close> returns to its callers, so the values are modelled as the
  documents themselves. A string is the list of its UTF-8 bytes. A number is a real: the
  finite ints and floats that JSON can hold, compared as Python compares them (NaN and the
  infinities, which \<^verbatim>\<open>json.load\<close> also accepts, are outside the model). A Python dict is an
  association list in insertion order whose keys are distinct.
\<close>

datatype json =
    JNull
  | JBool bool
  | JNum real
  | JStr string
  | JArr "json list"
  | JObj "(string \<times> json) list"

datatype error = OSError | ValueError | TypeError | AttributeError | KeyError | LibraryError string

text \<open>\<^verbatim>\<open>d[k] = v\<close> on a dict: an existing key keeps its position, a new key goes last.\<close>

fun dict_set :: "('k \<times> 'v) list \<Rightarrow> 'k \<Rightarrow> 'v \<Rightarrow> ('k \<times> 'v) list" where
  "dict_set [] k v = [(k, v)]"
| "dict_set ((k', v') # d) k v =
     (if k' = k then (k, v) # d else (k', v') # dict_set d k v)"

definition dict_keys :: "('k \<times> 'v) list \<Rightarrow> 'k list" where
  "dict_keys d = map fst d"

text \<open>\<^verbatim>\<open>if x:\<close> on a value.\<close>

fun truthy :: "json \<Rightarrow> bool" where
  "truthy JNull = False"
| "truthy (JBool b) = b"
| "truthy (JNum r) = (r \<noteq> 0)"
| "truthy (JStr s) = (s \<noteq> [])"
| "truthy (JArr xs) = (xs \<noteq> [])"
| "truthy (JObj d) = (d \<noteq> [])"

text \<open>Python's \<^verbatim>\<open>==\<close> and \<^verbatim>\<open>>\<close> on these values; a bool is the number 0 or 1.\<close>

fun num_of :: "json \<Rightarrow> real option" where
  "num_of (JNum r) = Some r"
| "num_of (JBool b) = Some (of_bool b)"
| "num_of _ = None"

fun py_eq :: "json \<Rightarrow> json \<Rightarrow> bool" where
  "py_eq JNull JNull = True"
| "py_eq (JStr s) (JStr t) = (s = t)"
| "py_eq (JArr []) (JArr []) = True"
| "py_eq (JArr (x # xs)) (JArr (y # ys)) = (py_eq x y \<and> py_eq (JArr xs) (JArr ys))"
| "py_eq (JObj d) (JObj e) =
     (length d = length e \<and>
      list_all (\<lambda>p. case map_of e (fst p) of None \<Rightarrow> False | Some w \<Rightarrow> py_eq (snd p) w) d)"
| "py_eq a b = (case (num_of a, num_of b) of (Some x, Some y) \<Rightarrow> x = y | _ \<Rightarrow> False)"

fun py_gt :: "json \<Rightarrow> json \<Rightarrow> error + bool" where
  "py_gt (JStr s) (JStr t) = Inr (t < s)"
| "py_gt (JArr (x # xs)) (JArr (y # ys)) =
     (if py_eq x y then py_gt (JArr xs) (JArr ys) else py_gt x y)"
| "py_gt (JArr (x # xs)) (JArr []) = Inr True"
| "py_gt (JArr []) (JArr ys) = Inr False"
| "py_gt a b =
     (case (num_of a, num_of b) of (Some x, Some y) \<Rightarrow> Inr (y < x) | _ \<Rightarrow> Inl TypeError)"

text \<open>
  \<^verbatim>\<open>max(d, key=d.get)\<close>: the keys are visited in order, the running maximum is replaced
  only by a strictly greater value, and a comparison that raises aborts the call. A value
  that is not a dict has no \<^verbatim>\<open>get\<close>.
\<close>

fun max_loop :: "(string \<times> json) list \<Rightarrow> string \<Rightarrow> json \<Rightarrow> error + string" where
  "max_loop [] mk mv = Inr mk"
| "max_loop ((k, v) # d) mk mv =
     (case py_gt v mv of
        Inl e \<Rightarrow> Inl e
      | Inr True \<Rightarrow> max_loop d k v
      | Inr False \<Rightarrow> max_loop d mk mv)"

fun max_by_get :: "json \<Rightarrow> error + string" where
  "max_by_get (JObj []) = Inl ValueError"
| "max_by_get (JObj ((k, v) # d)) = max_loop d k v"
| "max_by_get _ = Inl AttributeError"

text \<open>\<^verbatim>\<open>lp[key] = value\<close> on whatever \<^verbatim>\<open>json.load\<close> returned.\<close>

fun py_setitem :: "json \<Rightarrow> string \<Rightarrow> json \<Rightarrow> error + json" where
  "py_setitem (JObj d) k v = Inr (JObj (dict_set d k v))"
| "py_setitem _ k v = Inl TypeError"

section \<open>The files\<close>

text \<open>
  A file is missing, or it exists with some content and can or cannot be opened for
  reading; its content is a document or does not parse. \<^verbatim>\<open>json.dump\<close> followed by
  \<^verbatim>\<open>json.load\<close> is the standard library's and is taken to give the document back.
  The application-data directory \<^verbatim>\<open>%APPDATA%\AsphaltLauncher\<close> may not exist yet;
  \<open>writable\<close> says whether creating it and opening a file in it for writing succeed.
  The directory \<^verbatim>\<open>.minecraft\versions\<close> is a listing of names, each a file or a folder with
  its modification time, or is absent.
\<close>

datatype content = Malformed | Parsed json

datatype json_file = Missing | Unreadable content | Readable content

record appdata =
  config_file :: json_file
  last_played_file :: json_file

datatype node = RegularFile | Directory real

record world =
  appdata_dir :: "appdata option"
  writable :: bool
  versions_dir :: "(string \<times> node) list option"

definition CONFIG_FILE :: "world \<Rightarrow> json_file" where
  "CONFIG_FILE w = (case appdata_dir w of None \<Rightarrow> Missing | Some a \<Rightarrow> config_file a)"

definition LAST_PLAYED_FILE :: "world \<Rightarrow> json_file" where
  "LAST_PLAYED_FILE w = (case appdata_dir w of None \<Rightarrow> Missing | Some a \<Rightarrow> last_played_file a)"

definition isfile :: "json_file \<Rightarrow> bool" where
  "isfile f = (f \<noteq> Missing)"

text \<open>\<^verbatim>\<open>open(path, "r")\<close> and \<^verbatim>\<open>json.load\<close>.\<close>

fun json_load :: "json_file \<Rightarrow> error + json" where
  "json_load Missing = Inl OSError"
| "json_load (Unreadable c) = Inl OSError"
| "json_load (Readable Malformed) = Inl ValueError"
| "json_load (Readable (Parsed j)) = Inr j"


text \<open>
  What a successful \<^verbatim>\<open>open(path, "w")\<close> and \<^verbatim>\<open>json.dump\<close> leave: the document replaces the
  content, an existing file keeps its permissions (one that could not be read still cannot),
  and a file created by the call can be read.
\<close>

fun overwrite :: "json \<Rightarrow> json_file \<Rightarrow> json_file" where
  "overwrite j Missing = Readable (Parsed j)"
| "overwrite j (Unreadable c) = Unreadable (Parsed j)"
| "overwrite j (Readable c) = Readable (Parsed j)"

text \<open>
  \<^verbatim>\<open>open(path, "w")\<close> and \<^verbatim>\<open>json.dump\<close> in the application-data directory: \<open>put\<close> overwrites
  the file concerned.
\<close>

definition json_dump :: "world \<Rightarrow> (appdata \<Rightarrow> appdata) \<Rightarrow> error + world" where
  "json_dump w put =
     (case appdata_dir w of
        None \<Rightarrow> Inl OSError
      | Some a \<Rightarrow> if writable w then Inr (w\<lparr>appdata_dir := Some (put a)\<rparr>) else Inl OSError)"

section \<open>Settings and last-played store\<close>

definition default_config :: json where
  "default_config =
     JObj [(''username'', JStr ''''),
           (''jvm_args'', JArr [JStr ''-Xms2G'', JStr ''-Xmx4G'']),
           (''java_path'', JNull)]"

definition load_config :: "world \<Rightarrow> json" where
  "load_config w =
     (if isfile (CONFIG_FILE w)
      then (case json_load (CONFIG_FILE w) of Inr j \<Rightarrow> j | Inl e \<Rightarrow> default_config)
      else default_config)"



definition load_last_played :: "world \<Rightarrow> json" where
  "load_last_played w =
     (if isfile (LAST_PLAYED_FILE w)
      then (case json_load (LAST_PLAYED_FILE w) of Inr j \<Rightarrow> j | Inl e \<Rightarrow> JObj [])
      else JObj [])"

text \<open>\<open>now\<close> is \<^verbatim>\<open>datetime.now().timestamp()\<close>.\<close>

definition save_last_played :: "world \<Rightarrow> string \<Rightarrow> real \<Rightarrow> error + world" where
  "save_last_played w version_id now =
     (case py_setitem (load_last_played w) version_id (JNum now) of
        Inl e \<Rightarrow> Inl e
      | Inr lp \<Rightarrow>
          json_dump w (\<lambda>a. a\<lparr>last_played_file := overwrite lp (last_played_file a)\<rparr>))"

section \<open>Version catalogue\<close>

text \<open>
  \<^verbatim>\<open>_scan_local_versions\<close>: every folder of the versions directory, with its modification
  time, in listing order.
\<close>

fun scan_loop :: "(string \<times> node) list \<Rightarrow> (string \<times> real) list \<Rightarrow> (string \<times> real) list" where
  "scan_loop [] local = local"
| "scan_loop ((name, Directory mtime) # rest) local = scan_loop rest (dict_set local name mtime)"
| "scan_loop ((name, RegularFile) # rest) local = scan_loop rest local"

definition scan_local_versions :: "world \<Rightarrow> (string \<times> real) list" where
  "scan_local_versions w =
     (case versions_dir w of None \<Rightarrow> [] | Some listing \<Rightarrow> scan_loop listing [])"

text \<open>The wrench sign U+1F527 in UTF-8, and the label of a local entry.\<close>

definition wrench :: string where
  "wrench = [CHR 0xF0, CHR 0x9F, CHR 0x94, CHR 0xA7]"

definition local_label :: "string \<Rightarrow> string" where
  "local_label v = wrench @ '' '' @ v"

definition local_item :: "string \<Rightarrow> string \<times> string" where
  "local_item v = (local_label v, v)"

text \<open>An entry of the remote version list: its \<^verbatim>\<open>"id"\<close> and \<^verbatim>\<open>"type"\<close>.\<close>

record version_info =
  v_id :: string
  v_type :: string

definition type_labels :: "(string \<times> string) list" where
  "type_labels =
     [(''release'', ''Release''), (''snapshot'', ''Snapshot''),
      (''old_beta'', ''Beta''), (''old_alpha'', ''Alpha'')]"

definition remote_label :: "version_info \<Rightarrow> string" where
  "remote_label v =
     (case map_of type_labels (v_type v) of Some n \<Rightarrow> n | None \<Rightarrow> v_type v) @ '' - '' @ v_id v"

definition remote_item :: "version_info \<Rightarrow> string \<times> string" where
  "remote_item v = (remote_label v, v_id v)"

text \<open>The loop over the remote list with its \<^verbatim>\<open>seen\<close> set.\<close>

fun remote_loop :: "string set \<Rightarrow> version_info list \<Rightarrow> (string \<times> string) list" where
  "remote_loop seen [] = []"
| "remote_loop seen (v # rest) =
     (if v_id v \<in> seen then remote_loop seen rest
      else remote_item v # remote_loop (insert (v_id v) seen) rest)"

text \<open>\<^verbatim>\<open>next((i for i, (_, vid) in enumerate(items) if vid == last_vid), None)\<close>.\<close>

fun index_of :: "string \<Rightarrow> (string \<times> string) list \<Rightarrow> nat option" where
  "index_of last_vid [] = None"
| "index_of last_vid ((label, vid) # items) =
     (if vid = last_vid then Some 0 else map_option Suc (index_of last_vid items))"

text \<open>\<^verbatim>\<open>items.insert(0, items.pop(idx))\<close> for an index within the list.\<close>

definition move_to_front :: "nat \<Rightarrow> 'a list \<Rightarrow> 'a list" where
  "move_to_front idx items = items ! idx # (take idx items @ drop (Suc idx) items)"

definition merged_items :: "world \<Rightarrow> version_info list \<Rightarrow> (string \<times> string) list" where
  "merged_items w remote =
     (let local = scan_local_versions w
      in map local_item (dict_keys local) @ remote_loop (set (dict_keys local)) remote)"

text \<open>
  \<^verbatim>\<open>get_available_versions\<close>. \<open>fetch\<close> is the outcome of
  \<^verbatim>\<open>minecraft_launcher_lib.utils.get_version_list()\<close>: the list, or the exception it raised.
\<close>

definition get_available_versions ::
    "world \<Rightarrow> error + version_info list \<Rightarrow> error + (string \<times> string) list" where
  "get_available_versions w fetch =
     (case fetch of
        Inl e \<Rightarrow> Inl e
      | Inr remote \<Rightarrow>
          (let items = merged_items w remote;
               last_played = load_last_played w
           in if truthy last_played
              then (case max_by_get last_played of
                      Inl e \<Rightarrow> Inl e
                    | Inr last_vid \<Rightarrow>
                        (case index_of last_vid items of
                           None \<Rightarrow> Inr items
                         | Some idx \<Rightarrow> Inr (move_to_front idx items)))
              else Inr items))"

text \<open>
  The block of \<^verbatim>\<open>AsphaltLauncher.__init__\<close> that calls it: the catalogue shown at start and
  whether the retry button is visible.
\<close>

definition init_versions ::
    "world \<Rightarrow> error + version_info list \<Rightarrow> (string \<times> string) list \<times> bool" where
  "init_versions w fetch =
     (case get_available_versions w fetch of
        Inr versions \<Rightarrow> (versions, False)
      | Inl e \<Rightarrow> (map local_item (dict_keys (scan_local_versions w)), True))"

section \<open>The drop-down of the main window\<close>

text \<open>
  The part of the window that \<^verbatim>\<open>_populate_dropdown\<close> touches: the texts of the combo box and
  its current index (-1 when it is empty), the map from label to identifier, the
  \<^verbatim>\<open>_online\<close> attribute (\<^verbatim>\<open>True\<close>, \<^verbatim>\<open>False\<close>, or \<^verbatim>\<open>None\<close> after a launch) and whether the retry
  button is shown.
\<close>

record ui =
  dropdown :: "string list"
  current_index :: int
  version_map :: "(string \<times> string) list"
  online :: "bool option"
  retry_visible :: bool

definition currentText :: "ui \<Rightarrow> string" where
  "currentText u =
     (if 0 \<le> current_index u \<and> current_index u < int (length (dropdown u))
      then dropdown u ! nat (current_index u) else [])"

definition addItem :: "string \<Rightarrow> ui \<Rightarrow> ui" where
  "addItem label u =
     u\<lparr>dropdown := dropdown u @ [label],
       current_index := (if dropdown u = [] then 0 else current_index u)\<rparr>"

fun find_from :: "string \<Rightarrow> string list \<Rightarrow> int \<Rightarrow> int" where
  "find_from t [] i = -1"
| "find_from t (x # xs) i = (if x = t then i else find_from t xs (i + 1))"

definition findText :: "ui \<Rightarrow> string \<Rightarrow> int" where
  "findText u t = find_from t (dropdown u) 0"

definition add_entry :: "string \<times> string \<Rightarrow> ui \<Rightarrow> ui" where
  "add_entry e u = (addItem (fst e) u)\<lparr>version_map := dict_set (version_map u) (fst e) (snd e)\<rparr>"

text \<open>The last loop: select the first item whose identifier is \<open>last_vid\<close>.\<close>

fun select_loop :: "string \<Rightarrow> string list \<Rightarrow> int \<Rightarrow> ui \<Rightarrow> ui \<times> error option" where
  "select_loop last_vid [] i u = (u, None)"
| "select_loop last_vid (t # ts) i u =
     (case map_of (version_map u) t of
        None \<Rightarrow> (u, Some KeyError)
      | Some vid \<Rightarrow>
          if vid = last_vid then (u\<lparr>current_index := i\<rparr>, None)
          else select_loop last_vid ts (i + 1) u)"

definition populate_dropdown ::
    "world \<Rightarrow> error + version_info list \<Rightarrow> ui \<Rightarrow> ui \<times> error option" where
  "populate_dropdown w fetch u =
     (let old_text = currentText u;
          u1 = u\<lparr>dropdown := [], current_index := -1, version_map := []\<rparr>;
          local = scan_local_versions w;
          u2 = fold add_entry (map local_item (dict_keys local)) u1;
          u3 = (if online u2 = Some True
                then (case fetch of
                        Inr remote \<Rightarrow>
                          (fold add_entry (remote_loop (set (dict_keys local)) remote) u2)
                            \<lparr>retry_visible := False\<rparr>
                      | Inl e \<Rightarrow> u2\<lparr>online := Some False, retry_visible := True\<rparr>)
                else u2\<lparr>retry_visible := True\<rparr>);
          idx = findText u3 old_text;
          u4 = (if idx \<noteq> -1 then u3\<lparr>current_index := idx\<rparr> else u3);
          last_played = load_last_played w
      in if truthy last_played
         then (case max_by_get last_played of
                 Inl e \<Rightarrow> (u4, Some e)
               | Inr last_vid \<Rightarrow> select_loop last_vid (dropdown u4) 0 u4)
         else (u4, None))"

section \<open>Launching\<close>

text \<open>
  The options handed to the command builder, and the collaborators of
  \<^verbatim>\<open>launch_minecraft\<close>: \<^verbatim>\<open>uuid.uuid3\<close>, the installer (the versions directory it leaves and the
  exception it raised, if any), the command builder, \<^verbatim>\<open>subprocess.Popen\<close>, and the wait
  for the child with the sweep over the other processes that follows it.
\<close>

record options =
  username :: string
  uuid :: string
  token :: string
  executablePath :: "string option"
  jvmArguments :: "string list option"

record lib =
  uuid3 :: "string \<Rightarrow> string \<Rightarrow> string"
  install_minecraft_version ::
    "string \<Rightarrow> (string \<times> node) list option \<Rightarrow> (string \<times> node) list option \<times> error option"
  get_minecraft_command :: "string \<Rightarrow> options \<Rightarrow> error + string list"
  popen :: "string list \<Rightarrow> error option"
  wait_and_sweep :: "error option"

definition NAMESPACE_OID :: string where
  "NAMESPACE_OID = ''6ba7b812-9dad-11d1-80b4-00c04fd430c8''"

definition launch_options ::
    "lib \<Rightarrow> string \<Rightarrow> string option \<Rightarrow> string list option \<Rightarrow> options" where
  "launch_options l uname java_executable jvm_args =
     (let offline_uuid = uuid3 l NAMESPACE_OID uname
      in \<lparr>username = uname, uuid = offline_uuid, token = replicate 32 (CHR ''0''),
          executablePath =
            (if java_executable \<noteq> None \<and> java_executable \<noteq> Some [] then java_executable else None),
          jvmArguments = (if jvm_args \<noteq> None \<and> jvm_args \<noteq> Some [] then jvm_args else None)\<rparr>)"

text \<open>The world after the call, and the exception that escaped it, if any.\<close>

definition launch_minecraft ::
    "lib \<Rightarrow> world \<Rightarrow> real \<Rightarrow> string \<Rightarrow> string \<Rightarrow> string option \<Rightarrow> string list option
       \<Rightarrow> world \<times> error option" where
  "launch_minecraft l w now uname version java_executable jvm_args =
     (let opts = launch_options l uname java_executable jvm_args;
          (vdir, failed) = install_minecraft_version l version (versions_dir w);
          w1 = w\<lparr>versions_dir := vdir\<rparr>
      in case failed of
           Some e \<Rightarrow> (w1, Some e)
         | None \<Rightarrow>
             (case get_minecraft_command l version opts of
                Inl e \<Rightarrow> (w1, Some e)
              | Inr command \<Rightarrow>
                  (case popen l command of
                     Some e \<Rightarrow> (w1, Some e)
                   | None \<Rightarrow>
                       (case save_last_played w1 version now of
                          Inl e \<Rightarrow> (w1, Some e)
                        | Inr w2 \<Rightarrow> (w2, wait_and_sweep l)))))"

section \<open>Notions of the specification\<close>

text \<open>
  A last-played record maps an identifier to a timestamp; this is the document that holds it.
\<close>

definition mapping_json :: "(string \<times> real) list \<Rightarrow> json" where
  "mapping_json lp = JObj (map (\<lambda>p. (fst p, JNum (snd p))) lp)"

text \<open>The type names as the specification lists them.\<close>

definition TypeName :: "string \<Rightarrow> string" where
  "TypeName t =
     (if t = ''release'' then ''Release''
      else if t = ''snapshot'' then ''Snapshot''
      else if t = ''old_beta'' then ''Beta''
      else if t = ''old_alpha'' then ''Alpha''
      else t)"

text \<open>
  Loading as the specification words it: the fields of a well-formed object merged over the
  defaults, the defaults for anything else.
\<close>

definition load_merged :: "world \<Rightarrow> json" where
  "load_merged w =
     (case (CONFIG_FILE w, default_config) of
        (Readable (Parsed (JObj d)), JObj dflt) \<Rightarrow> JObj (fold (\<lambda>p acc. dict_set acc (fst p) (snd p)) d dflt)
      | _ \<Rightarrow> default_config)"

section \<open>Concrete inputs\<close>

text \<open>
  A machine with the folder of version 1.20.1 and a stray file in the versions directory, a
  settings file that holds only a username, and one launch of 1.21 on record; and the remote
  list of the specification's scenario.
\<close>

definition example_world :: world where
  "example_world =
     \<lparr>appdata_dir =
        Some \<lparr>config_file = Readable (Parsed (JObj [(''username'', JStr ''bob'')])),
              last_played_file = Readable (Parsed (JObj [(''1.21'', JNum 100)]))\<rparr>,
      writable = True,
      versions_dir = Some [(''1.20.1'', Directory 5), (''notes.txt'', RegularFile)]\<rparr>"

definition example_remote :: "version_info list" where
  "example_remote =
     [\<lparr>v_id = ''1.20.1'', v_type = ''release''\<rparr>, \<lparr>v_id = ''1.21'', v_type = ''release''\<rparr>,
      \<lparr>v_id = ''23w01a'', v_type = ''pending''\<rparr>]"

definition example_ui :: ui where
  "example_ui =
     \<lparr>dropdown = [], current_index = -1, version_map = [], online = Some True,
      retry_visible = False\<rparr>"

text \<open>The same machine with a last-played file that does not parse.\<close>

definition corrupt_world :: world where
  "corrupt_world =
     \<lparr>appdata_dir = Some \<lparr>config_file = Missing, last_played_file = Readable Malformed\<rparr>,
      writable = True,
      versions_dir = Some [(''1.20.1'', Directory 5), (''notes.txt'', RegularFile)]\<rparr>"


definition misshapen_world :: world where
  "misshapen_world =
     \<lparr>appdata_dir =
        Some \<lparr>config_file = Missing, last_played_file = Readable (Parsed (JArr [JNum 1]))\<rparr>,
      writable = True,
      versions_dir = Some [(''1.20.1'', Directory 5), (''notes.txt'', RegularFile)]\<rparr>"

text \<open>Collaborators whose installer and command builder succeed and whose spawn fails.\<close>

definition example_lib :: lib where
  "example_lib =
     \<lparr>uuid3 = (\<lambda>namespace name. namespace @ '':'' @ name),
      install_minecraft_version = (\<lambda>version vdir. (vdir, None)),
      get_minecraft_command = (\<lambda>version opts. Inr [''java'', ''-jar'', version]),
      popen = (\<lambda>command. Some OSError),
      wait_and_sweep = None\<rparr>"

section \<open>Dictionaries and lists\<close>

lemma dict_set_keys: "set (map fst (dict_set d k v)) = insert k (set (map fst d))"
proof (induction d)
  case Nil
  show ?case by simp
next
  case (Cons p d)
  obtain k' v' where p: "p = (k', v')" by (cases p)
  from Cons p show ?case by (cases "k' = k") auto
qed

lemma dict_set_distinct: "distinct (map fst d) \<Longrightarrow> distinct (map fst (dict_set d k v))"
proof (induction d)
  case Nil
  then show ?case by simp
next
  case (Cons p d)
  obtain k' v' where p: "p = (k', v')" by (cases p)
  show ?case
  proof (cases "k' = k")
    case True
    with Cons.prems p show ?thesis by simp
  next
    case False
    have "k' \<notin> set (map fst (dict_set d k v))"
      using Cons.prems p False by (simp add: dict_set_keys del: set_map)
    with Cons p False show ?thesis by simp
  qed
qed

lemma map_of_dict_set: "map_of (dict_set d k v) = (map_of d)(k \<mapsto> v)"
  by (induction d) (auto simp: fun_eq_iff)

lemma dict_set_fresh: "k \<notin> set (map fst d) \<Longrightarrow> dict_set d k v = d @ [(k, v)]"
  by (induction d) auto

lemma scan_loop_distinct:
  "distinct (map fst local) \<Longrightarrow> distinct (map fst (scan_loop listing local))"
  by (induction listing local rule: scan_loop.induct) (simp_all add: dict_set_distinct)

lemma scan_local_versions_distinct: "distinct (dict_keys (scan_local_versions w))"
  by (simp add: scan_local_versions_def dict_keys_def scan_loop_distinct split: option.split)

lemma remote_loop_ids: "set (map snd (remote_loop seen remote)) = v_id ` set remote - seen"
  by (induction remote arbitrary: seen) (auto simp: remote_item_def)

lemma remote_loop_distinct: "distinct (map snd (remote_loop seen remote))"
proof (induction remote arbitrary: seen)
  case Nil
  show ?case by simp
next
  case (Cons v rest)
  have "v_id v \<notin> set (map snd (remote_loop (insert (v_id v) seen) rest))"
    by (simp add: remote_loop_ids del: set_map)
  with Cons show ?case by (simp add: remote_item_def)
qed

lemma merged_items_distinct: "distinct (map snd (merged_items w remote))"
proof -
  let ?ks = "dict_keys (scan_local_versions w)"
  have 1: "map snd (map local_item ?ks) = ?ks"
    by (simp add: local_item_def comp_def)
  have 2: "set ?ks \<inter> set (map snd (remote_loop (set ?ks) remote)) = {}"
    by (auto simp: remote_loop_ids simp del: set_map)
  show ?thesis
    unfolding merged_items_def Let_def
    using 1 2 scan_local_versions_distinct [of w] remote_loop_distinct [of "set ?ks" remote]
    by (simp del: set_map)
qed

lemma index_of_None: "index_of k items = None \<longleftrightarrow> k \<notin> snd ` set items"
  by (induction k items rule: index_of.induct) auto

lemma index_of_Some:
  "index_of k items = Some i \<Longrightarrow>
     i < length items \<and> snd (items ! i) = k \<and> (\<forall>j<i. snd (items ! j) \<noteq> k)"
proof (induction k items arbitrary: i rule: index_of.induct)
  case (1 last_vid)
  then show ?case by simp
next
  case (2 last_vid label vid items)
  show ?case
  proof (cases "vid = last_vid")
    case True
    with 2 show ?thesis by simp
  next
    case False
    with "2.prems" obtain i' where i': "index_of last_vid items = Some i'" "i = Suc i'"
      by auto
    from "2.IH" [OF False i'(1)] False i'(2) show ?thesis
      by (auto simp: less_Suc_eq_0_disj)
  qed
qed

lemma move_to_front_split:
  assumes "idx < length xs"
  shows "\<exists>pre e post. xs = pre @ e # post \<and> length pre = idx \<and> e = xs ! idx
           \<and> move_to_front idx xs = e # pre @ post"
proof -
  have "xs = take idx xs @ xs ! idx # drop (Suc idx) xs"
    using assms by (simp add: id_take_nth_drop)
  moreover have "length (take idx xs) = idx" using assms by simp
  ultimately show ?thesis unfolding move_to_front_def by blast
qed

lemma move_to_front_set:
  assumes "idx < length xs"
  shows "set (move_to_front idx xs) = set xs"
proof -
  obtain pre e post where "xs = pre @ e # post" "move_to_front idx xs = e # pre @ post"
    using move_to_front_split [OF assms] by blast
  then show ?thesis by (metis Un_insert_right list.simps(15) set_append)
qed

lemma move_to_front_distinct:
  assumes "idx < length xs" "distinct (map f xs)"
  shows "distinct (map f (move_to_front idx xs))"
proof -
  obtain pre e post where s: "xs = pre @ e # post" "move_to_front idx xs = e # pre @ post"
    using move_to_front_split [OF assms(1)] by blast
  from assms(2) have "distinct (map f (pre @ e # post))" unfolding s(1) [symmetric] .
  then have "distinct (map f (e # pre @ post))" by auto
  then show ?thesis unfolding s(2) .
qed

lemma filter_key_distinct:
  "distinct (map f xs) \<Longrightarrow> x \<in> set xs \<Longrightarrow> filter (\<lambda>e. f e = f x) xs = [x]"
proof (induction xs)
  case Nil
  then show ?case by simp
next
  case (Cons a xs)
  show ?case
  proof (cases "x = a")
    case True
    have "f a \<notin> f ` set xs"
      using Cons.prems(1) by simp
    then have "\<forall>e\<in>set xs. f e \<noteq> f a"
      by (metis imageI)
    then have "filter (\<lambda>e. f e = f a) xs = []"
      by (simp add: filter_empty_conv)
    with True show ?thesis by simp
  next
    case False
    with Cons.prems have "x \<in> set xs" "f a \<noteq> f x" by auto
    with Cons show ?thesis by simp
  qed
qed

section \<open>The settings store\<close>

lemma load_last_played_Parsed:
  "LAST_PLAYED_FILE w = Readable (Parsed j) \<Longrightarrow> load_last_played w = j"
  by (simp add: load_last_played_def isfile_def)

lemma load_last_played_absent:
  "LAST_PLAYED_FILE w = Missing \<or> (\<exists>c. LAST_PLAYED_FILE w = Unreadable c)
     \<or> LAST_PLAYED_FILE w = Readable Malformed
   \<Longrightarrow> load_last_played w = JObj []"
  by (auto simp: load_last_played_def isfile_def)

lemma LAST_PLAYED_FILE_Some:
  "LAST_PLAYED_FILE w = Readable c \<Longrightarrow> \<exists>a. appdata_dir w = Some a \<and> last_played_file a = Readable c"
  by (cases "appdata_dir w") (simp_all add: LAST_PLAYED_FILE_def)

text \<open>
  C2, as the specification states it: a settings file that is a well-formed object with
  keys missing is loaded with each missing key filled from the defaults. The code does not
  do that: \<^verbatim>\<open>load_config\<close> returns the parsed object as it is. A file that holds only a
  username is loaded as a dict with that one key; merged over the defaults it would have
  three.
\<close>

theorem load_config_no_merge_counterexample:
  "load_config example_world = JObj [(''username'', JStr ''bob'')]
   \<and> load_merged example_world =
       JObj [(''username'', JStr ''bob''),
             (''jvm_args'', JArr [JStr ''-Xms2G'', JStr ''-Xmx4G'']),
             (''java_path'', JNull)]
   \<and> load_config example_world \<noteq> load_merged example_world"
  by (simp add: load_config_def load_merged_def example_world_def CONFIG_FILE_def isfile_def
        default_config_def)

text \<open>
  C2, amended: \<^verbatim>\<open>load_config\<close> never raises (it is a total function to a document); for a
  file that is missing, unreadable or malformed it returns exactly the defaults (empty
  username, the two memory flags, null Java path); for a file that holds a JSON object it
  returns that object as it is, with no merge, so a key the file lacks is absent from the
  result.
\<close>

theorem load_config_defaults_or_object:
  "(CONFIG_FILE w = Missing \<or> (\<exists>c. CONFIG_FILE w = Unreadable c)
      \<or> CONFIG_FILE w = Readable Malformed
    \<longrightarrow> load_config w =
          JObj [(''username'', JStr []),
                (''jvm_args'', JArr [JStr ''-Xms2G'', JStr ''-Xmx4G'']),
                (''java_path'', JNull)])
   \<and> (\<forall>d. CONFIG_FILE w = Readable (Parsed (JObj d)) \<longrightarrow> load_config w = JObj d)"
  by (auto simp: load_config_def isfile_def default_config_def)

theorem load_config_defaults_or_object_witness:
  "CONFIG_FILE corrupt_world = Missing
   \<and> load_config corrupt_world =
       JObj [(''username'', JStr []),
             (''jvm_args'', JArr [JStr ''-Xms2G'', JStr ''-Xmx4G'']),
             (''java_path'', JNull)]
   \<and> CONFIG_FILE example_world = Readable (Parsed (JObj [(''username'', JStr ''bob'')]))
   \<and> load_config example_world = JObj [(''username'', JStr ''bob'')]"
proof -
  have h1: "CONFIG_FILE corrupt_world = Missing"
    by (simp add: CONFIG_FILE_def corrupt_world_def)
  have h2: "CONFIG_FILE example_world = Readable (Parsed (JObj [(''username'', JStr ''bob'')]))"
    by (simp add: CONFIG_FILE_def example_world_def)
  from load_config_defaults_or_object [of corrupt_world]
    load_config_defaults_or_object [of example_world] h1 h2
  show ?thesis by simp
qed




text \<open>
  C7: for a last-played file that holds a JSON object (a dict, so with distinct keys) and
  every identifier, a \<^verbatim>\<open>save_last_played\<close> that can write rewrites the file as an object in
  which that identifier maps to the current timestamp, every other identifier maps to what
  it mapped to before, and keys are still distinct: exactly one entry for the identifier.
\<close>

theorem save_last_played_sets_one_entry:
  assumes "LAST_PLAYED_FILE w = Readable (Parsed (JObj d))" and "distinct (map fst d)"
    and "writable w"
  shows "\<exists>w' d'. save_last_played w version_id now = Inr w'
           \<and> LAST_PLAYED_FILE w' = Readable (Parsed (JObj d'))
           \<and> map_of d' version_id = Some (JNum now)
           \<and> (\<forall>k. k \<noteq> version_id \<longrightarrow> map_of d' k = map_of d k)
           \<and> distinct (map fst d')
           \<and> length (filter (\<lambda>p. fst p = version_id) d') = 1"
proof -
  let ?d' = "dict_set d version_id (JNum now)"
  from LAST_PLAYED_FILE_Some [OF assms(1)] obtain a where
    a: "appdata_dir w = Some a" "last_played_file a = Readable (Parsed (JObj d))" by blast
  let ?w' = "w\<lparr>appdata_dir := Some (a\<lparr>last_played_file := Readable (Parsed (JObj ?d'))\<rparr>)\<rparr>"
  have 1: "save_last_played w version_id now = Inr ?w'"
    using assms(3) a
    by (simp add: save_last_played_def load_last_played_Parsed [OF assms(1)] json_dump_def)
  have 2: "LAST_PLAYED_FILE ?w' = Readable (Parsed (JObj ?d'))"
    by (simp add: LAST_PLAYED_FILE_def)
  have 3: "map_of ?d' version_id = Some (JNum now)"
    by (simp add: map_of_dict_set)
  have 4: "\<forall>k. k \<noteq> version_id \<longrightarrow> map_of ?d' k = map_of d k"
    by (simp add: map_of_dict_set)
  have 5: "distinct (map fst ?d')"
    using assms(2) by (rule dict_set_distinct)
  from 3 have "(version_id, JNum now) \<in> set ?d'" by (rule map_of_SomeD)
  from filter_key_distinct [OF 5 this]
  have 6: "length (filter (\<lambda>p. fst p = version_id) ?d') = 1" by simp
  from 1 2 3 4 5 6 show ?thesis by blast
qed

theorem save_last_played_sets_one_entry_witness:
  "LAST_PLAYED_FILE example_world = Readable (Parsed (JObj [(''1.21'', JNum 100)]))
   \<and> distinct (map fst [(''1.21'', JNum 100)])
   \<and> writable example_world
   \<and> (\<exists>w'. save_last_played example_world ''1.20.1'' 200 = Inr w'
          \<and> LAST_PLAYED_FILE w' =
              Readable (Parsed (JObj [(''1.21'', JNum 100), (''1.20.1'', JNum 200)])))"
proof -
  have h1: "LAST_PLAYED_FILE example_world = Readable (Parsed (JObj [(''1.21'', JNum 100)]))"
    by (simp add: LAST_PLAYED_FILE_def example_world_def)
  have h2: "distinct (map fst [(''1.21'', JNum 100)])" by simp
  have h3: "writable example_world" by (simp add: example_world_def)
  from save_last_played_sets_one_entry [OF h1 h2 h3, of "''1.20.1''" 200]
  obtain w' d' where r: "save_last_played example_world ''1.20.1'' 200 = Inr w'"
    "LAST_PLAYED_FILE w' = Readable (Parsed (JObj d'))" by blast
  have "save_last_played example_world ''1.20.1'' 200 =
      Inr (example_world\<lparr>appdata_dir :=
             Some \<lparr>config_file = Readable (Parsed (JObj [(''username'', JStr ''bob'')])),
                   last_played_file =
                     Readable (Parsed (JObj [(''1.21'', JNum 100), (''1.20.1'', JNum 200)]))\<rparr>\<rparr>)"
    by (simp add: save_last_played_def load_last_played_def LAST_PLAYED_FILE_def isfile_def
          json_dump_def example_world_def)
  with r(1) have "LAST_PLAYED_FILE w' =
      Readable (Parsed (JObj [(''1.21'', JNum 100), (''1.20.1'', JNum 200)]))"
    by (auto simp: LAST_PLAYED_FILE_def)
  with r(1) h1 h2 h3 show ?thesis by blast
qed

text \<open>
  C10: when the last-played file is missing, unreadable or not well-formed JSON,
  \<^verbatim>\<open>save_last_played\<close> for an identifier rewrites the file as the mapping with that single
  entry, whatever the file held (a file that could not be read keeps its permissions); the
  only other outcome is that the write itself fails (no application-data directory, or no
  permission) and nothing changes.
\<close>

theorem save_last_played_discards_unreadable_history:
  assumes "LAST_PLAYED_FILE w = Missing \<or> (\<exists>c. LAST_PLAYED_FILE w = Unreadable c)
             \<or> LAST_PLAYED_FILE w = Readable Malformed"
  shows "save_last_played w version_id now =
           (case appdata_dir w of
              None \<Rightarrow> Inl OSError
            | Some a \<Rightarrow>
                if writable w
                then Inr (w\<lparr>appdata_dir :=
                           Some (a\<lparr>last_played_file :=
                             (case last_played_file a of
                                Unreadable c \<Rightarrow> Unreadable (Parsed (JObj [(version_id, JNum now)]))
                              | _ \<Rightarrow> Readable (Parsed (JObj [(version_id, JNum now)])))\<rparr>)\<rparr>)
                else Inl OSError)"
proof (cases "appdata_dir w")
  case None
  then show ?thesis
    by (simp add: save_last_played_def load_last_played_absent [OF assms] json_dump_def)
next
  case (Some a)
  with assms have "last_played_file a = Missing \<or> (\<exists>c. last_played_file a = Unreadable c)
      \<or> last_played_file a = Readable Malformed"
    by (simp add: LAST_PLAYED_FILE_def)
  with Some show ?thesis
    by (auto simp: save_last_played_def load_last_played_absent [OF assms] json_dump_def)
qed

theorem save_last_played_discards_unreadable_history_witness:
  "LAST_PLAYED_FILE corrupt_world = Readable Malformed
   \<and> save_last_played corrupt_world ''1.21'' 200 =
       Inr (corrupt_world\<lparr>appdata_dir :=
              Some \<lparr>config_file = Missing,
                    last_played_file = Readable (Parsed (JObj [(''1.21'', JNum 200)]))\<rparr>\<rparr>)"
proof -
  have h: "LAST_PLAYED_FILE corrupt_world = Readable Malformed"
    by (simp add: LAST_PLAYED_FILE_def corrupt_world_def)
  then have h': "LAST_PLAYED_FILE corrupt_world = Missing
      \<or> (\<exists>c. LAST_PLAYED_FILE corrupt_world = Unreadable c)
      \<or> LAST_PLAYED_FILE corrupt_world = Readable Malformed"
    by simp
  from save_last_played_discards_unreadable_history [OF h', of "''1.21''" 200] h
  show ?thesis by (simp add: corrupt_world_def)
qed

section \<open>Launch\<close>

text \<open>
  C6: if the installer, the command builder or the spawn raises inside
  \<^verbatim>\<open>launch_minecraft\<close>, the exception escapes the call and the application-data directory,
  and so the last-played record, is exactly what it was before the call.
\<close>

theorem launch_failure_keeps_last_played:
  assumes "snd (install_minecraft_version l version (versions_dir w)) \<noteq> None
         \<or> (\<exists>e. get_minecraft_command l version
                  (launch_options l uname java_executable jvm_args) = Inl e)
         \<or> (\<exists>command e. get_minecraft_command l version
                  (launch_options l uname java_executable jvm_args) = Inr command
                \<and> popen l command = Some e)"
  shows "snd (launch_minecraft l w now uname version java_executable jvm_args) \<noteq> None
       \<and> appdata_dir (fst (launch_minecraft l w now uname version java_executable jvm_args))
           = appdata_dir w
       \<and> load_last_played (fst (launch_minecraft l w now uname version java_executable jvm_args))
           = load_last_played w"
  using assms
  by (auto simp: launch_minecraft_def Let_def load_last_played_def LAST_PLAYED_FILE_def
        split: prod.splits option.splits sum.splits)

theorem launch_failure_keeps_last_played_witness:
  "(\<exists>command e. get_minecraft_command example_lib ''1.21''
        (launch_options example_lib ''bob'' None None) = Inr command
      \<and> popen example_lib command = Some e)
   \<and> snd (launch_minecraft example_lib example_world 200 ''bob'' ''1.21'' None None) \<noteq> None
   \<and> load_last_played (fst (launch_minecraft example_lib example_world 200 ''bob'' ''1.21'' None None))
       = JObj [(''1.21'', JNum 100)]"
proof -
  have h: "\<exists>command e. get_minecraft_command example_lib ''1.21''
        (launch_options example_lib ''bob'' None None) = Inr command
      \<and> popen example_lib command = Some e"
    by (simp add: example_lib_def)
  have "load_last_played example_world = JObj [(''1.21'', JNum 100)]"
    by (simp add: load_last_played_def LAST_PLAYED_FILE_def isfile_def example_world_def)
  with h launch_failure_keeps_last_played
    [of example_lib "''1.21''" example_world "''bob''" None None 200]
  show ?thesis by simp
qed

text \<open>
  C9: the offline identity that \<^verbatim>\<open>launch_minecraft\<close> hands to the command builder is
  \<^verbatim>\<open>uuid3\<close> of a fixed namespace and the username: two runs with the same username and the
  same \<^verbatim>\<open>uuid3\<close> derive the same identity, whatever the Java path, the JVM arguments and
  the other collaborators are.
\<close>

theorem offline_uuid_from_username_alone:
  assumes "uuid3 l1 = uuid3 l2"
  shows "uuid (launch_options l1 uname java1 args1) = uuid (launch_options l2 uname java2 args2)"
  using assms by (simp add: launch_options_def)

theorem offline_uuid_from_username_alone_witness:
  "uuid3 example_lib = uuid3 (example_lib\<lparr>popen := \<lambda>command. None\<rparr>)
   \<and> uuid (launch_options example_lib ''bob'' None None)
     = uuid (launch_options (example_lib\<lparr>popen := \<lambda>command. None\<rparr>) ''bob''
          (Some ''C:/java.exe'') (Some [''-Xmx2G'']))"
proof -
  have h: "uuid3 example_lib = uuid3 (example_lib\<lparr>popen := \<lambda>command. None\<rparr>)" by simp
  from offline_uuid_from_username_alone [OF h] h show ?thesis by blast
qed

section \<open>The most recent launch\<close>

lemma truthy_mapping_json: "truthy (mapping_json lp) = (lp \<noteq> [])"
  by (simp add: mapping_json_def)

lemma max_loop_first:
  "\<exists>k t. max_loop (map (\<lambda>p. (fst p, JNum (snd p))) lp) mk (JNum mv) = Inr k
     \<and> ((k, t) = (mk, mv) \<and> (\<forall>p\<in>set lp. snd p \<le> mv)
        \<or> (\<exists>pre post. lp = pre @ (k, t) # post \<and> mv < t
              \<and> (\<forall>p\<in>set pre. snd p < t) \<and> (\<forall>p\<in>set post. snd p \<le> t)))"
proof (induction lp arbitrary: mk mv)
  case Nil
  show ?case by simp
next
  case (Cons p lp)
  obtain k0 t0 where p: "p = (k0, t0)" by (cases p)
  show ?case
  proof (cases "mv < t0")
    case True
    from Cons [of k0 t0] obtain k t where
      r: "max_loop (map (\<lambda>p. (fst p, JNum (snd p))) lp) k0 (JNum t0) = Inr k"
      and c: "(k, t) = (k0, t0) \<and> (\<forall>p\<in>set lp. snd p \<le> t0)
        \<or> (\<exists>pre post. lp = pre @ (k, t) # post \<and> t0 < t
              \<and> (\<forall>p\<in>set pre. snd p < t) \<and> (\<forall>p\<in>set post. snd p \<le> t))"
      by blast
    from r True p have m: "max_loop (map (\<lambda>p. (fst p, JNum (snd p))) (p # lp)) mk (JNum mv) = Inr k"
      by simp
    from c have "\<exists>pre post. p # lp = pre @ (k, t) # post \<and> mv < t
              \<and> (\<forall>p\<in>set pre. snd p < t) \<and> (\<forall>p\<in>set post. snd p \<le> t)"
    proof
      assume a: "(k, t) = (k0, t0) \<and> (\<forall>p\<in>set lp. snd p \<le> t0)"
      with p True have "p # lp = [] @ (k, t) # lp \<and> mv < t
          \<and> (\<forall>p\<in>set []. snd p < t) \<and> (\<forall>p\<in>set lp. snd p \<le> t)" by simp
      then show ?thesis by blast
    next
      assume "\<exists>pre post. lp = pre @ (k, t) # post \<and> t0 < t
              \<and> (\<forall>p\<in>set pre. snd p < t) \<and> (\<forall>p\<in>set post. snd p \<le> t)"
      then obtain pre post where a: "lp = pre @ (k, t) # post" "t0 < t"
        "\<forall>p\<in>set pre. snd p < t" "\<forall>p\<in>set post. snd p \<le> t" by blast
      with p True have "p # lp = (p # pre) @ (k, t) # post \<and> mv < t
          \<and> (\<forall>p\<in>set (p # pre). snd p < t) \<and> (\<forall>p\<in>set post. snd p \<le> t)" by simp
      then show ?thesis by blast
    qed
    with m show ?thesis by blast
  next
    case False
    from Cons [of mk mv] obtain k t where
      r: "max_loop (map (\<lambda>p. (fst p, JNum (snd p))) lp) mk (JNum mv) = Inr k"
      and c: "(k, t) = (mk, mv) \<and> (\<forall>p\<in>set lp. snd p \<le> mv)
        \<or> (\<exists>pre post. lp = pre @ (k, t) # post \<and> mv < t
              \<and> (\<forall>p\<in>set pre. snd p < t) \<and> (\<forall>p\<in>set post. snd p \<le> t))"
      by blast
    from r False p have m: "max_loop (map (\<lambda>p. (fst p, JNum (snd p))) (p # lp)) mk (JNum mv) = Inr k"
      by simp
    from c have "(k, t) = (mk, mv) \<and> (\<forall>p\<in>set (p # lp). snd p \<le> mv)
        \<or> (\<exists>pre post. p # lp = pre @ (k, t) # post \<and> mv < t
              \<and> (\<forall>p\<in>set pre. snd p < t) \<and> (\<forall>p\<in>set post. snd p \<le> t))"
    proof
      assume "(k, t) = (mk, mv) \<and> (\<forall>p\<in>set lp. snd p \<le> mv)"
      with p False show ?thesis by simp
    next
      assume "\<exists>pre post. lp = pre @ (k, t) # post \<and> mv < t
              \<and> (\<forall>p\<in>set pre. snd p < t) \<and> (\<forall>p\<in>set post. snd p \<le> t)"
      then obtain pre post where a: "lp = pre @ (k, t) # post" "mv < t"
        "\<forall>p\<in>set pre. snd p < t" "\<forall>p\<in>set post. snd p \<le> t" by blast
      with p False have "p # lp = (p # pre) @ (k, t) # post \<and> mv < t
          \<and> (\<forall>p\<in>set (p # pre). snd p < t) \<and> (\<forall>p\<in>set post. snd p \<le> t)" by simp
      then show ?thesis by blast
    qed
    with m show ?thesis by blast
  qed
qed

lemma max_by_get_first:
  assumes "lp \<noteq> []"
  shows "\<exists>k t pre post. max_by_get (mapping_json lp) = Inr k \<and> lp = pre @ (k, t) # post
           \<and> (\<forall>p\<in>set pre. snd p < t) \<and> (\<forall>p\<in>set post. snd p \<le> t)"
proof -
  from assms obtain k0 t0 rest where lp: "lp = (k0, t0) # rest"
    by (cases lp) auto
  from max_loop_first [of rest k0 t0] obtain k t where
    r: "max_loop (map (\<lambda>p. (fst p, JNum (snd p))) rest) k0 (JNum t0) = Inr k"
    and c: "(k, t) = (k0, t0) \<and> (\<forall>p\<in>set rest. snd p \<le> t0)
        \<or> (\<exists>pre post. rest = pre @ (k, t) # post \<and> t0 < t
              \<and> (\<forall>p\<in>set pre. snd p < t) \<and> (\<forall>p\<in>set post. snd p \<le> t))"
    by blast
  from r have m: "max_by_get (mapping_json lp) = Inr k"
    by (simp add: lp mapping_json_def)
  from c have "\<exists>pre post. lp = pre @ (k, t) # post
           \<and> (\<forall>p\<in>set pre. snd p < t) \<and> (\<forall>p\<in>set post. snd p \<le> t)"
  proof
    assume "(k, t) = (k0, t0) \<and> (\<forall>p\<in>set rest. snd p \<le> t0)"
    then have "lp = [] @ (k, t) # rest \<and> (\<forall>p\<in>set []. snd p < t) \<and> (\<forall>p\<in>set rest. snd p \<le> t)"
      by (simp add: lp)
    then show ?thesis by blast
  next
    assume "\<exists>pre post. rest = pre @ (k, t) # post \<and> t0 < t
              \<and> (\<forall>p\<in>set pre. snd p < t) \<and> (\<forall>p\<in>set post. snd p \<le> t)"
    then obtain pre post where "rest = pre @ (k, t) # post" "t0 < t"
        "\<forall>p\<in>set pre. snd p < t" "\<forall>p\<in>set post. snd p \<le> t" by blast
    then have "lp = ((k0, t0) # pre) @ (k, t) # post
        \<and> (\<forall>p\<in>set ((k0, t0) # pre). snd p < t) \<and> (\<forall>p\<in>set post. snd p \<le> t)"
      by (simp add: lp)
    then show ?thesis by blast
  qed
  with m show ?thesis by blast
qed

section \<open>The catalogue\<close>

lemma get_available_versions_empty:
  assumes "load_last_played w = mapping_json []"
  shows "get_available_versions w (Inr remote) = Inr (merged_items w remote)"
  by (simp add: get_available_versions_def Let_def assms truthy_mapping_json)

lemma get_available_versions_last:
  assumes "load_last_played w = mapping_json lp" and "lp \<noteq> []"
    and "max_by_get (mapping_json lp) = Inr k"
  shows "get_available_versions w (Inr remote) =
           (case index_of k (merged_items w remote) of
              None \<Rightarrow> Inr (merged_items w remote)
            | Some idx \<Rightarrow> Inr (move_to_front idx (merged_items w remote)))"
  using assms by (simp add: get_available_versions_def Let_def truthy_mapping_json)

lemma get_available_versions_ok:
  assumes "load_last_played w = mapping_json lp"
  shows "\<exists>items. get_available_versions w (Inr remote) = Inr items
           \<and> set items = set (merged_items w remote) \<and> distinct (map snd items)"
proof (cases "lp = []")
  case True
  with assms get_available_versions_empty [of w remote] merged_items_distinct [of w remote]
  show ?thesis by simp
next
  case False
  from max_by_get_first [OF False] obtain k where k: "max_by_get (mapping_json lp) = Inr k"
    by blast
  note g = get_available_versions_last [OF assms False k, of remote]
  show ?thesis
  proof (cases "index_of k (merged_items w remote)")
    case None
    with g merged_items_distinct [of w remote] show ?thesis by simp
  next
    case (Some idx)
    from index_of_Some [OF Some] have "idx < length (merged_items w remote)" by simp
    from move_to_front_set [OF this] move_to_front_distinct [OF this merged_items_distinct]
      g Some
    show ?thesis by simp
  qed
qed

lemma local_item_in_merged:
  "i \<in> set (dict_keys (scan_local_versions w)) \<Longrightarrow> local_item i \<in> set (merged_items w remote)"
  by (simp add: merged_items_def Let_def)

lemma example_last_played:
  "load_last_played example_world = mapping_json [(''1.21'', 100)]"
  by (simp add: load_last_played_def LAST_PLAYED_FILE_def isfile_def example_world_def
        mapping_json_def)

lemma example_local: "dict_keys (scan_local_versions example_world) = [''1.20.1'']"
  by (simp add: scan_local_versions_def example_world_def dict_keys_def)

lemma example_merged:
  "merged_items example_world example_remote =
     [(wrench @ '' 1.20.1'', ''1.20.1''), (''Release - 1.21'', ''1.21''),
      (''pending - 23w01a'', ''23w01a'')]"
  by (simp add: merged_items_def example_local Let_def example_remote_def local_item_def
        local_label_def remote_item_def remote_label_def type_labels_def)

lemma example_catalogue:
  "get_available_versions example_world (Inr example_remote) =
     Inr [(''Release - 1.21'', ''1.21''), (wrench @ '' 1.20.1'', ''1.20.1''),
          (''pending - 23w01a'', ''23w01a'')]"
  by (simp add: get_available_versions_def example_merged example_last_played Let_def
        mapping_json_def move_to_front_def)

text \<open>
  C3: whenever the remote list is fetched and the last-played file holds a record (or is
  absent), \<^verbatim>\<open>get_available_versions\<close> returns a catalogue whose identifiers are pairwise
  distinct, and an identifier that is both a local folder and in the remote list has exactly
  one entry, the local one, labelled with the wrench sign.
\<close>

theorem local_entry_wins_and_identifiers_unique:
  assumes "load_last_played w = mapping_json lp"
  shows "\<exists>items. get_available_versions w (Inr remote) = Inr items
           \<and> distinct (map snd items)
           \<and> (\<forall>i. i \<in> set (dict_keys (scan_local_versions w)) \<and> i \<in> v_id ` set remote
                 \<longrightarrow> filter (\<lambda>e. snd e = i) items = [(wrench @ '' '' @ i, i)])"
proof -
  from get_available_versions_ok [OF assms, of remote] obtain items where
    items: "get_available_versions w (Inr remote) = Inr items"
      "set items = set (merged_items w remote)" "distinct (map snd items)"
    by blast
  have "filter (\<lambda>e. snd e = i) items = [(wrench @ '' '' @ i, i)]"
    if "i \<in> set (dict_keys (scan_local_versions w))" for i
  proof -
    from that items(2) have "local_item i \<in> set items"
      by (simp add: local_item_in_merged)
    from filter_key_distinct [OF items(3) this] show ?thesis
      by (simp add: local_item_def local_label_def)
  qed
  with items(1,3) show ?thesis by blast
qed

theorem local_entry_wins_and_identifiers_unique_witness:
  "load_last_played example_world = mapping_json [(''1.21'', 100)]
   \<and> ''1.20.1'' \<in> set (dict_keys (scan_local_versions example_world))
   \<and> ''1.20.1'' \<in> v_id ` set example_remote
   \<and> (\<exists>items. get_available_versions example_world (Inr example_remote) = Inr items
          \<and> distinct (map snd items)
          \<and> filter (\<lambda>e. snd e = ''1.20.1'') items = [(wrench @ '' 1.20.1'', ''1.20.1'')])"
proof -
  have h2: "''1.20.1'' \<in> set (dict_keys (scan_local_versions example_world))"
    by (simp add: example_local)
  have h3: "''1.20.1'' \<in> v_id ` set example_remote"
    by (simp add: example_remote_def)
  from local_entry_wins_and_identifiers_unique [OF example_last_played, of example_remote]
  obtain items where
    "get_available_versions example_world (Inr example_remote) = Inr items"
    "distinct (map snd items)"
    "\<forall>i. i \<in> set (dict_keys (scan_local_versions example_world)) \<and> i \<in> v_id ` set example_remote
        \<longrightarrow> filter (\<lambda>e. snd e = i) items = [(wrench @ '' '' @ i, i)]"
    by blast
  with h2 h3 example_last_played show ?thesis by auto
qed

text \<open>
  C4: for a non-empty last-played record, \<^verbatim>\<open>get_available_versions\<close> picks the identifier
  with the greatest timestamp on record (the first such in the order of the file, should
  two be equal); if the merged list (local entries, then the remote entries that are new)
  has an entry for it, that entry comes first and the others follow in the order they had;
  if it has none, the merged list is returned as it is.
\<close>

theorem most_recent_first_rest_in_order:
  assumes "load_last_played w = mapping_json lp" and "lp \<noteq> []"
  shows "\<exists>last_vid t before after. lp = before @ (last_vid, t) # after
           \<and> (\<forall>p\<in>set before. snd p < t) \<and> (\<forall>p\<in>set after. snd p \<le> t)
           \<and> (if last_vid \<in> snd ` set (merged_items w remote)
              then \<exists>pre e post. merged_items w remote = pre @ e # post \<and> snd e = last_vid
                     \<and> get_available_versions w (Inr remote) = Inr (e # pre @ post)
              else get_available_versions w (Inr remote) = Inr (merged_items w remote))"
proof -
  from max_by_get_first [OF assms(2)] obtain k t before after where
    k: "max_by_get (mapping_json lp) = Inr k" and
    f: "lp = before @ (k, t) # after" "\<forall>p\<in>set before. snd p < t" "\<forall>p\<in>set after. snd p \<le> t"
    by blast
  note g = get_available_versions_last [OF assms k, of remote]
  let ?m = "merged_items w remote"
  have "if k \<in> snd ` set ?m
        then \<exists>pre e post. ?m = pre @ e # post \<and> snd e = k
               \<and> get_available_versions w (Inr remote) = Inr (e # pre @ post)
        else get_available_versions w (Inr remote) = Inr ?m"
  proof (cases "index_of k ?m")
    case None
    with g index_of_None [of k ?m] show ?thesis by simp
  next
    case (Some idx)
    then have in_m: "k \<in> snd ` set ?m"
      using index_of_None [of k ?m] by simp
    from index_of_Some [OF Some] have idx: "idx < length ?m" "snd (?m ! idx) = k" by simp_all
    from move_to_front_split [OF idx(1)] obtain pre e post where
      s: "?m = pre @ e # post" "e = ?m ! idx" "move_to_front idx ?m = e # pre @ post"
      by blast
    from idx(2) have e: "snd e = k" unfolding s(2) .
    have "get_available_versions w (Inr remote) = Inr (e # pre @ post)"
      using g Some s(3) by simp
    with s(1) e have "\<exists>pre e post. ?m = pre @ e # post \<and> snd e = k
        \<and> get_available_versions w (Inr remote) = Inr (e # pre @ post)"
      by blast
    with in_m show ?thesis by (simp only: if_True)
  qed
  with f show ?thesis by blast
qed

theorem most_recent_first_rest_in_order_witness:
  "load_last_played example_world = mapping_json [(''1.21'', 100)]
   \<and> [(''1.21'', 100::real)] \<noteq> []
   \<and> ''1.21'' \<in> snd ` set (merged_items example_world example_remote)
   \<and> (\<exists>pre e post. merged_items example_world example_remote = pre @ e # post
          \<and> snd e = ''1.21''
          \<and> get_available_versions example_world (Inr example_remote) = Inr (e # pre @ post))
   \<and> get_available_versions example_world (Inr example_remote) =
       Inr [(''Release - 1.21'', ''1.21''), (wrench @ '' 1.20.1'', ''1.20.1''),
            (''pending - 23w01a'', ''23w01a'')]"
proof -
  have h2: "[(''1.21'', 100::real)] \<noteq> []" by simp
  have m: "''1.21'' \<in> snd ` set (merged_items example_world example_remote)"
    by (simp add: example_merged)
  from most_recent_first_rest_in_order [OF example_last_played h2, of example_remote]
  obtain last_vid t before after where
    l: "[(''1.21'', 100::real)] = before @ (last_vid, t) # after"
    and c: "if last_vid \<in> snd ` set (merged_items example_world example_remote)
       then \<exists>pre e post. merged_items example_world example_remote = pre @ e # post
              \<and> snd e = last_vid
              \<and> get_available_versions example_world (Inr example_remote) = Inr (e # pre @ post)
       else get_available_versions example_world (Inr example_remote)
              = Inr (merged_items example_world example_remote)"
    by blast
  from l have "last_vid = ''1.21''" by (cases before) auto
  with c m have "\<exists>pre e post. merged_items example_world example_remote = pre @ e # post
          \<and> snd e = ''1.21''
          \<and> get_available_versions example_world (Inr example_remote) = Inr (e # pre @ post)"
    by (simp only: if_True)
  with example_last_played h2 m example_catalogue show ?thesis by blast
qed

lemma remote_label_TypeName: "remote_label v = TypeName (v_type v) @ '' - '' @ v_id v"
  by (simp add: remote_label_def type_labels_def TypeName_def)

lemma remote_loop_first:
  "v_id v \<notin> seen \<Longrightarrow> v_id v \<notin> v_id ` set pre \<Longrightarrow>
     remote_item v \<in> set (remote_loop seen (pre @ v # post))"
  by (induction pre arbitrary: seen) auto

lemma remote_loop_sound:
  "e \<in> set (remote_loop seen remote) \<Longrightarrow> \<exists>v\<in>set remote. e = remote_item v \<and> v_id v \<notin> seen"
proof (induction remote arbitrary: seen)
  case Nil
  then show ?case by simp
next
  case (Cons a remote)
  show ?case
  proof (cases "v_id a \<in> seen")
    case True
    with Cons.prems have "e \<in> set (remote_loop seen remote)" by simp
    from Cons.IH [OF this] show ?thesis by auto
  next
    case False
    with Cons.prems have "e = remote_item a \<or> e \<in> set (remote_loop (insert (v_id a) seen) remote)"
      by simp
    then show ?thesis
    proof
      assume "e = remote_item a"
      with False show ?thesis by auto
    next
      assume "e \<in> set (remote_loop (insert (v_id a) seen) remote)"
      from Cons.IH [OF this] show ?thesis by auto
    qed
  qed
qed

text \<open>
  C8: in the catalogue that \<^verbatim>\<open>get_available_versions\<close> returns, every remote entry that is
  not dropped (its identifier is no local folder and occurs in no earlier remote entry) is
  labelled with its type name, \<^verbatim>\<open>" - "\<close> and its identifier, where the type name is
  Release, Snapshot, Beta or Alpha for the four known types and the raw type otherwise;
  every local folder is labelled with the wrench sign, a space and its name; and there are
  no other entries.
\<close>

theorem catalogue_labels:
  assumes "load_last_played w = mapping_json lp"
  shows "\<exists>items. get_available_versions w (Inr remote) = Inr items
     \<and> (\<forall>pre v post. remote = pre @ v # post
            \<and> v_id v \<notin> set (dict_keys (scan_local_versions w)) \<and> v_id v \<notin> v_id ` set pre
          \<longrightarrow> (TypeName (v_type v) @ '' - '' @ v_id v, v_id v) \<in> set items)
     \<and> (\<forall>i\<in>set (dict_keys (scan_local_versions w)). (wrench @ '' '' @ i, i) \<in> set items)
     \<and> (\<forall>e\<in>set items.
           (snd e \<in> set (dict_keys (scan_local_versions w)) \<and> fst e = wrench @ '' '' @ snd e)
         \<or> (\<exists>v\<in>set remote. snd e = v_id v
               \<and> fst e = TypeName (v_type v) @ '' - '' @ v_id v))"
proof -
  let ?keys = "dict_keys (scan_local_versions w)"
  from get_available_versions_ok [OF assms, of remote] obtain items where
    items: "get_available_versions w (Inr remote) = Inr items"
      "set items = set (merged_items w remote)"
    by blast
  have m: "set (merged_items w remote) = local_item ` set ?keys \<union> set (remote_loop (set ?keys) remote)"
    by (simp add: merged_items_def Let_def)
  have 1: "(TypeName (v_type v) @ '' - '' @ v_id v, v_id v) \<in> set items"
    if "remote = pre @ v # post" "v_id v \<notin> set ?keys" "v_id v \<notin> v_id ` set pre" for pre v post
  proof -
    from remote_loop_first [OF that(2,3), of post] that(1)
    have "remote_item v \<in> set (remote_loop (set ?keys) remote)" by simp
    then show ?thesis
      unfolding items(2) m by (simp add: remote_item_def remote_label_TypeName)
  qed
  have 2: "(wrench @ '' '' @ i, i) \<in> set items" if "i \<in> set ?keys" for i
  proof -
    from that have "local_item i \<in> set items" unfolding items(2) m by simp
    then show ?thesis by (simp add: local_item_def local_label_def)
  qed
  have 3: "(snd e \<in> set ?keys \<and> fst e = wrench @ '' '' @ snd e)
         \<or> (\<exists>v\<in>set remote. snd e = v_id v \<and> fst e = TypeName (v_type v) @ '' - '' @ v_id v)"
    if "e \<in> set items" for e
  proof -
    from that have "e \<in> local_item ` set ?keys \<or> e \<in> set (remote_loop (set ?keys) remote)"
      unfolding items(2) m by simp
    then show ?thesis
    proof
      assume "e \<in> local_item ` set ?keys"
      then show ?thesis by (auto simp: local_item_def local_label_def)
    next
      assume "e \<in> set (remote_loop (set ?keys) remote)"
      from remote_loop_sound [OF this] obtain v where "v \<in> set remote" "e = remote_item v"
        by blast
      then show ?thesis by (auto simp: remote_item_def remote_label_TypeName)
    qed
  qed
  from items(1) 1 2 3 show ?thesis by blast
qed

theorem catalogue_labels_witness:
  "load_last_played example_world = mapping_json [(''1.21'', 100)]
   \<and> (\<exists>items. get_available_versions example_world (Inr example_remote) = Inr items
          \<and> (''Release - 1.21'', ''1.21'') \<in> set items
          \<and> (''pending - 23w01a'', ''23w01a'') \<in> set items
          \<and> (wrench @ '' 1.20.1'', ''1.20.1'') \<in> set items)"
proof -
  let ?keys = "dict_keys (scan_local_versions example_world)"
  from catalogue_labels [OF example_last_played, of example_remote]
  obtain items where
    g: "get_available_versions example_world (Inr example_remote) = Inr items"
    and r: "\<And>pre v post. example_remote = pre @ v # post \<Longrightarrow> v_id v \<notin> set ?keys
          \<Longrightarrow> v_id v \<notin> v_id ` set pre
          \<Longrightarrow> (TypeName (v_type v) @ '' - '' @ v_id v, v_id v) \<in> set items"
    and l: "\<And>i. i \<in> set ?keys \<Longrightarrow> (wrench @ '' '' @ i, i) \<in> set items"
    by blast
  have a: "(''Release - 1.21'', ''1.21'') \<in> set items"
    using r [of "[\<lparr>v_id = ''1.20.1'', v_type = ''release''\<rparr>]"
               "\<lparr>v_id = ''1.21'', v_type = ''release''\<rparr>"
               "[\<lparr>v_id = ''23w01a'', v_type = ''pending''\<rparr>]"]
    by (simp add: example_remote_def example_local TypeName_def)
  have b: "(''pending - 23w01a'', ''23w01a'') \<in> set items"
    using r [of "[\<lparr>v_id = ''1.20.1'', v_type = ''release''\<rparr>, \<lparr>v_id = ''1.21'', v_type = ''release''\<rparr>]"
               "\<lparr>v_id = ''23w01a'', v_type = ''pending''\<rparr>" "[]"]
    by (simp add: example_remote_def example_local TypeName_def)
  have c: "(wrench @ '' 1.20.1'', ''1.20.1'') \<in> set items"
    using l [of "''1.20.1''"] by (simp add: example_local)
  from example_last_played g a b c show ?thesis by blast
qed

section \<open>Fetch failure\<close>

lemma fold_add_entry_dropdown: "dropdown (fold add_entry es u) = dropdown u @ map fst es"
  by (induction es arbitrary: u) (simp_all add: add_entry_def addItem_def)

lemma fold_add_entry_online: "online (fold add_entry es u) = online u"
  by (induction es arbitrary: u) (simp_all add: add_entry_def addItem_def)

lemma fold_add_entry_version_map:
  "distinct (map fst (version_map u @ es)) \<Longrightarrow> version_map (fold add_entry es u) = version_map u @ es"
proof (induction es arbitrary: u)
  case Nil
  show ?case by simp
next
  case (Cons e es)
  from Cons.prems have "fst e \<notin> set (map fst (version_map u))" by auto
  then have v: "version_map (add_entry e u) = version_map u @ [e]"
    by (simp add: add_entry_def addItem_def dict_set_fresh)
  with Cons.prems have "distinct (map fst (version_map (add_entry e u) @ es))" by simp
  from Cons.IH [OF this] v show ?case by simp
qed

lemma local_labels_distinct: "distinct ks \<Longrightarrow> distinct (map fst (map local_item ks))"
  by (simp add: distinct_map comp_def local_item_def local_label_def inj_on_def)

lemma select_loop_total:
  "set ts \<subseteq> fst ` set (version_map u) \<Longrightarrow>
     \<exists>ci. select_loop k ts i u = (u\<lparr>current_index := ci\<rparr>, None)"
proof (induction ts arbitrary: i)
  case Nil
  have "u = u\<lparr>current_index := current_index u\<rparr>" by simp
  then show ?case by (metis select_loop.simps(1))
next
  case (Cons t ts)
  from Cons.prems have "t \<in> fst ` set (version_map u)" by simp
  then obtain vid where vid: "map_of (version_map u) t = Some vid"
    by (metis map_of_eq_None_iff not_Some_eq)
  from Cons.prems have "set ts \<subseteq> fst ` set (version_map u)" by simp
  from Cons.IH [OF this] vid show ?case by (cases "vid = k") auto
qed

lemma select_loop_frame:
  "\<exists>ci err. select_loop k ts i u = (u\<lparr>current_index := ci\<rparr>, err)"
proof (induction ts arbitrary: i)
  case Nil
  have "u = u\<lparr>current_index := current_index u\<rparr>" by simp
  then show ?case by (metis select_loop.simps(1))
next
  case (Cons t ts)
  show ?case
  proof (cases "map_of (version_map u) t")
    case None
    have "u = u\<lparr>current_index := current_index u\<rparr>" by simp
    moreover from None have "select_loop k (t # ts) i u = (u, Some KeyError)" by simp
    ultimately show ?thesis by metis
  next
    case (Some vid)
    with Cons [of "i + 1"] show ?thesis by (cases "vid = k") auto
  qed
qed

text \<open>
  C1, as the specification states it: whenever the remote fetch raises, the construction
  of the catalogue lets no exception escape, yields exactly the local entries and sets the
  offline flag. The code does less. \<^verbatim>\<open>get_available_versions\<close> has no handler and passes
  the exception on to its caller; and \<^verbatim>\<open>_populate_dropdown\<close>, which does catch the fetch
  failure, still raises when the last-played file holds a list: \<^verbatim>\<open>max\<close> with
  \<^verbatim>\<open>last_played.get\<close> stands outside the handler.
\<close>

theorem fetch_failure_counterexample:
  "get_available_versions example_world (Inl (LibraryError ''ConnectionError''))
     = Inl (LibraryError ''ConnectionError'')
   \<and> snd (populate_dropdown misshapen_world (Inl (LibraryError ''ConnectionError'')) example_ui)
     = Some AttributeError"
  by (simp add: get_available_versions_def populate_dropdown_def Let_def load_last_played_def
        LAST_PLAYED_FILE_def isfile_def misshapen_world_def)

text \<open>
  C1, amended: when the remote fetch raises, \<^verbatim>\<open>get_available_versions\<close> passes the exception
  to its caller, and the callers build the fallback. \<^verbatim>\<open>_populate_dropdown\<close>, called online,
  catches it and leaves exactly the local entries in scan order under the wrench label,
  with \<^verbatim>\<open>_online\<close> set to \<^verbatim>\<open>False\<close> and the retry button shown; no exception escapes it when
  the last-played file holds a mapping from identifiers to timestamps or is missing,
  unreadable or malformed. The start-up block catches the exception and shows exactly the
  local entries and the retry button.
\<close>

theorem fetch_failure_handled_by_callers:
  assumes "online u = Some True"
  shows "dropdown (fst (populate_dropdown w (Inl e) u))
           = map (\<lambda>v. wrench @ '' '' @ v) (dict_keys (scan_local_versions w))
       \<and> version_map (fst (populate_dropdown w (Inl e) u))
           = map (\<lambda>v. (wrench @ '' '' @ v, v)) (dict_keys (scan_local_versions w))
       \<and> online (fst (populate_dropdown w (Inl e) u)) = Some False
       \<and> retry_visible (fst (populate_dropdown w (Inl e) u))
       \<and> (\<forall>lp. load_last_played w = mapping_json lp
             \<longrightarrow> snd (populate_dropdown w (Inl e) u) = None)
       \<and> get_available_versions w (Inl e) = Inl e
       \<and> init_versions w (Inl e) =
           (map (\<lambda>v. (wrench @ '' '' @ v, v)) (dict_keys (scan_local_versions w)), True)"
proof -
  let ?keys = "dict_keys (scan_local_versions w)"
  define u2 where
    "u2 = fold add_entry (map local_item ?keys)
            (u\<lparr>dropdown := [], current_index := -1, version_map := []\<rparr>)"
  define u3 where "u3 = u2\<lparr>online := Some False, retry_visible := True\<rparr>"
  define u4 where
    "u4 = (if findText u3 (currentText u) \<noteq> -1
           then u3\<lparr>current_index := findText u3 (currentText u)\<rparr> else u3)"
  have li: "map local_item ?keys = map (\<lambda>v. (wrench @ '' '' @ v, v)) ?keys"
    by (simp add: local_item_def local_label_def)
  have d2: "dropdown u2 = map (\<lambda>v. wrench @ '' '' @ v) ?keys"
    by (simp add: u2_def fold_add_entry_dropdown local_item_def local_label_def comp_def)
  have "distinct (map fst (map local_item ?keys))"
    by (rule local_labels_distinct) (rule scan_local_versions_distinct)
  then have v2: "version_map u2 = map local_item ?keys"
    by (simp add: u2_def fold_add_entry_version_map)
  have o2: "online u2 = Some True"
    by (simp add: u2_def fold_add_entry_online assms(1))
  have u4: "dropdown u4 = dropdown u2" "version_map u4 = version_map u2"
    "online u4 = Some False" "retry_visible u4"
    by (simp_all add: u4_def u3_def)
  have pd_falsy: "populate_dropdown w (Inl e) u = (u4, None)"
    if "\<not> truthy (load_last_played w)"
    unfolding populate_dropdown_def Let_def u4_def u3_def
    using o2 [unfolded u2_def] that by (simp add: u2_def)
  have pd_err: "populate_dropdown w (Inl e) u = (u4, Some e')"
    if "truthy (load_last_played w)" "max_by_get (load_last_played w) = Inl e'" for e'
    unfolding populate_dropdown_def Let_def u4_def u3_def
    using o2 [unfolded u2_def] that by (simp add: u2_def)
  have pd_sel: "populate_dropdown w (Inl e) u = select_loop k (dropdown u4) 0 u4"
    if "truthy (load_last_played w)" "max_by_get (load_last_played w) = Inr k" for k
    unfolding populate_dropdown_def Let_def u4_def u3_def
    using o2 [unfolded u2_def] that by (simp add: u2_def)
  have same: "u4 = u4\<lparr>current_index := current_index u4\<rparr>" by simp
  have "\<exists>ci err. populate_dropdown w (Inl e) u = (u4\<lparr>current_index := ci\<rparr>, err)"
  proof (cases "truthy (load_last_played w)")
    case False
    from pd_falsy [OF False] same show ?thesis by metis
  next
    case True
    show ?thesis
    proof (cases "max_by_get (load_last_played w)")
      case (Inl e')
      from pd_err [OF True Inl] same show ?thesis by metis
    next
      case (Inr k)
      from pd_sel [OF True Inr] select_loop_frame [of k "dropdown u4" 0 u4]
      show ?thesis by simp
    qed
  qed
  then obtain ci err where
    r: "populate_dropdown w (Inl e) u = (u4\<lparr>current_index := ci\<rparr>, err)" by blast
  have 1: "dropdown (fst (populate_dropdown w (Inl e) u)) = map (\<lambda>v. wrench @ '' '' @ v) ?keys"
    by (simp add: r u4 d2)
  have 2: "version_map (fst (populate_dropdown w (Inl e) u))
      = map (\<lambda>v. (wrench @ '' '' @ v, v)) ?keys"
    by (simp add: r u4 v2 li)
  have 3: "online (fst (populate_dropdown w (Inl e) u)) = Some False"
    "retry_visible (fst (populate_dropdown w (Inl e) u))"
    by (simp_all add: r u4)
  have 4: "snd (populate_dropdown w (Inl e) u) = None"
    if lp: "load_last_played w = mapping_json lp" for lp
  proof (cases "lp = []")
    case True
    with lp have "\<not> truthy (load_last_played w)" by (simp add: truthy_mapping_json)
    from pd_falsy [OF this] show ?thesis by simp
  next
    case False
    with lp have t: "truthy (load_last_played w)" by (simp add: truthy_mapping_json)
    from max_by_get_first [OF False] lp obtain k where
      k: "max_by_get (load_last_played w) = Inr k" by auto
    have "set (dropdown u4) \<subseteq> fst ` set (version_map u4)"
      by (simp add: u4 d2 v2 li image_comp)
    from select_loop_total [OF this, of k 0] pd_sel [OF t k] show ?thesis by auto
  qed
  have 5: "get_available_versions w (Inl e) = Inl e"
    by (simp add: get_available_versions_def)
  have 6: "init_versions w (Inl e) = (map (\<lambda>v. (wrench @ '' '' @ v, v)) ?keys, True)"
    by (simp add: init_versions_def get_available_versions_def li)
  from 1 2 3 4 5 6 show ?thesis by blast
qed

theorem fetch_failure_handled_by_callers_witness:
  "online example_ui = Some True
   \<and> load_last_played example_world = mapping_json [(''1.21'', 100)]
   \<and> dropdown (fst (populate_dropdown example_world (Inl (LibraryError ''ConnectionError''))
        example_ui)) = [wrench @ '' 1.20.1'']
   \<and> version_map (fst (populate_dropdown example_world (Inl (LibraryError ''ConnectionError''))
        example_ui)) = [(wrench @ '' 1.20.1'', ''1.20.1'')]
   \<and> online (fst (populate_dropdown example_world (Inl (LibraryError ''ConnectionError''))
        example_ui)) = Some False
   \<and> retry_visible (fst (populate_dropdown example_world (Inl (LibraryError ''ConnectionError''))
        example_ui))
   \<and> snd (populate_dropdown example_world (Inl (LibraryError ''ConnectionError'')) example_ui)
       = None
   \<and> get_available_versions example_world (Inl (LibraryError ''ConnectionError''))
       = Inl (LibraryError ''ConnectionError'')
   \<and> init_versions example_world (Inl (LibraryError ''ConnectionError''))
       = ([(wrench @ '' 1.20.1'', ''1.20.1'')], True)"
proof -
  have h1: "online example_ui = Some True" by (simp add: example_ui_def)
  from fetch_failure_handled_by_callers
    [OF h1, of example_world "LibraryError ''ConnectionError''"]
  show ?thesis using h1 example_last_played by (auto simp: example_local)
qed

end
